theory Spec2Isabelle
  imports Main "HOL-Library.Sublist"
begin

section \<open>The catalog population script (populate.js)\<close>

text \<open>
  JavaScript strings are modelled as \<^typ>\<open>string\<close>: one \<^typ>\<open>char\<close> per UTF-16 code
  unit, for the code units 0 to 255 (Latin-1), so that \<open>length\<close> is the script's
  \<open>.length\<close>. A field that may be \<open>undefined\<close> is an \<open>option\<close>. A \<open>TypeError\<close> raised by
  reading a property of \<open>undefined\<close> is the left summand of a result.
\<close>

subsection \<open>Data: the records of the source API and the rows of the books table\<close>

record industryIdentifier =
  type :: string
  "identifier" :: string

record imageLinks =
  thumbnail :: "string option"

record volumeInfo =
  title :: "string option"
  authors :: "string list option"
  industryIdentifiers :: "industryIdentifier list option"
  description :: "string option"
  categories :: "string list option"
  publishedDate :: "string option"
  imageLinks :: "imageLinks option"

record item =
  volumeInfo :: volumeInfo

record book =
  title :: string
  author :: string
  isbn :: string
  description :: string
  genre :: string
  publication_date :: string
  cover_image :: "string option"

datatype js_error = TypeError

subsection \<open>The JavaScript built-ins the normalizer calls\<close>

text \<open>\<open>!s\<close> for a string that may be undefined: true for \<open>undefined\<close> and for \<open>''\<close>.\<close>

definition falsy :: "string option \<Rightarrow> bool" where
  "falsy s = (case s of None \<Rightarrow> True | Some t \<Rightarrow> t = [])"

text \<open>\<open>a || d\<close> for a string \<open>a\<close> that may be undefined.\<close>

definition or_default :: "string option \<Rightarrow> string \<Rightarrow> string" where
  "or_default s d = (if falsy s then d else the s)"

text \<open>\<open>Array.prototype.join\<close> on an array of strings.\<close>

fun join :: "string \<Rightarrow> string list \<Rightarrow> string" where
  "join sep [] = []"
| "join sep [x] = x"
| "join sep (x # y # ys) = x @ sep @ join sep (y # ys)"

text \<open>
  \<open>String.prototype.toLowerCase\<close> on the code units 0 to 255: the capital letters
  \<open>A\<close> to \<open>Z\<close> (65 to 90) and the Latin-1 capitals (192 to 222, without the
  multiplication sign 215) move up by 32, every other code unit stays.
\<close>

definition toLowerCase_char :: "char \<Rightarrow> char" where
  "toLowerCase_char c =
     (let n = (of_char c :: nat)
      in if (65 \<le> n \<and> n \<le> 90) \<or> (192 \<le> n \<and> n \<le> 222 \<and> n \<noteq> 215)
         then char_of (n + 32) else c)"

definition toLowerCase :: "string \<Rightarrow> string" where
  "toLowerCase s = map toLowerCase_char s"

text \<open>
  \<open>String.prototype.split\<close> with a one-character separator: the pieces between
  the separators, in order; a string without the separator is the only piece.
\<close>

fun split :: "char \<Rightarrow> string \<Rightarrow> string list" where
  "split sep [] = [[]]"
| "split sep (c # cs) =
     (if c = sep then [] # split sep cs
      else (case split sep cs of
              [] \<Rightarrow> [[c]]
            | w # ws \<Rightarrow> (c # w) # ws))"

text \<open>\<open>xs[0]\<close>: \<open>undefined\<close> on the empty array.\<close>

definition first :: "'a list \<Rightarrow> 'a option" where
  "first xs = (case xs of [] \<Rightarrow> None | x # _ \<Rightarrow> Some x)"

text \<open>\<open>xs?.find(p)\<close> on an array that may be undefined.\<close>

definition find_opt :: "('a \<Rightarrow> bool) \<Rightarrow> 'a list option \<Rightarrow> 'a option" where
  "find_opt p xs = (case xs of None \<Rightarrow> None | Some ys \<Rightarrow> List.find p ys)"

subsection \<open>transformBookData\<close>

text \<open>The publication date block of the callback (lines 69 to 81).\<close>

definition publicationDate :: "string option \<Rightarrow> string" where
  "publicationDate pd =
     (if falsy pd then ''1970-01-01''
      else if length (the pd) = 4 then the pd @ ''-01-01''
      else if length (the pd) = 7 then the pd @ ''-01''
      else if length (the pd) \<ge> 10 then take 10 (the pd)
      else ''1970-01-01'')"

text \<open>
  The genre expression (line 90). An array is truthy even when empty, so on
  \<open>categories: []\<close> the element \<open>categories[0]\<close> is \<open>undefined\<close> and
  \<open>.toLowerCase()\<close> raises.
\<close>

definition genre_of :: "string list option \<Rightarrow> js_error + string" where
  "genre_of cats =
     (case cats of
        None \<Rightarrow> Inr ''general''
      | Some cs \<Rightarrow>
          (case first cs of
             None \<Rightarrow> Inl TypeError
           | Some c \<Rightarrow> Inr (hd (split CHR '' '' (toLowerCase c)))))"

text \<open>
  The callback of \<open>map\<close> (lines 55 to 94): \<open>Inr None\<close> is the \<open>null\<close> of a skipped
  record. \<open>!vol.authors\<close> is true only for an undefined \<open>authors\<close>: an array is truthy.
\<close>

definition transformItem :: "item \<Rightarrow> js_error + book option" where
  "transformItem it =
     (let vol = volumeInfo it;
          isbn13 = find_opt (\<lambda>i. type i = ''ISBN_13'') (industryIdentifiers vol);
          isbn10 = find_opt (\<lambda>i. type i = ''ISBN_10'') (industryIdentifiers vol)
      in if falsy (volumeInfo.title vol) \<or> authors vol = None \<or> (isbn13 = None \<and> isbn10 = None)
         then Inr None
         else (case genre_of (categories vol) of
                 Inl e \<Rightarrow> Inl e
               | Inr g \<Rightarrow>
                   Inr (Some \<lparr>
                     title = the (volumeInfo.title vol),
                     author = join '', '' (the (authors vol)),
                     isbn = (case isbn13 of Some i \<Rightarrow> identifier i
                             | None \<Rightarrow> identifier (the isbn10)),
                     description = or_default (volumeInfo.description vol) ''No description available.'',
                     genre = g,
                     publication_date = publicationDate (publishedDate vol),
                     cover_image =
                       (case volumeInfo.imageLinks vol of
                          None \<Rightarrow> None
                        | Some l \<Rightarrow> if falsy (thumbnail l) then None else thumbnail l)\<rparr>)))"

text \<open>\<open>Array.prototype.map\<close> with a callback that may raise: the first raise ends it.\<close>

fun map_raising :: "('a \<Rightarrow> js_error + 'b) \<Rightarrow> 'a list \<Rightarrow> js_error + 'b list" where
  "map_raising f [] = Inr []"
| "map_raising f (x # xs) =
     (case f x of
        Inl e \<Rightarrow> Inl e
      | Inr y \<Rightarrow> (case map_raising f xs of Inl e \<Rightarrow> Inl e | Inr ys \<Rightarrow> Inr (y # ys)))"

text \<open>\<open>.filter(Boolean)\<close> on an array of objects and \<open>null\<close>s.\<close>

fun filter_Boolean :: "'a option list \<Rightarrow> 'a list" where
  "filter_Boolean [] = []"
| "filter_Boolean (None # xs) = filter_Boolean xs"
| "filter_Boolean (Some x # xs) = x # filter_Boolean xs"

definition transformBookData :: "item list \<Rightarrow> js_error + book list" where
  "transformBookData googleBooks =
     (case map_raising transformItem googleBooks of
        Inl e \<Rightarrow> Inl e
      | Inr ys \<Rightarrow> Inr (filter_Boolean ys))"

text \<open>
  The records the guard of line 65 lets through: a title that is not empty, an
  \<open>authors\<close> field, and at least one identifier of the 13-digit or the 10-digit scheme.
\<close>

definition validated :: "item \<Rightarrow> bool" where
  "validated it =
     (\<not> falsy (volumeInfo.title (volumeInfo it)) \<and> authors (volumeInfo it) \<noteq> None \<and>
      (case industryIdentifiers (volumeInfo it) of
         None \<Rightarrow> False
       | Some ids \<Rightarrow> list_ex (\<lambda>i. type i = ''ISBN_13'' \<or> type i = ''ISBN_10'') ids))"

subsection \<open>The world outside the script: the source API, the store, the console\<close>

text \<open>
  The request built by \<open>fetchGoogleBooks\<close> (the parameters of the URL), and what the
  call of \<open>fetch\<close> can give back: a response with \<open>ok\<close> whose body may have \<open>items\<close>,
  a response without \<open>ok\<close> with its status and the message of its error envelope, or
  a rejected promise (a transport failure) with its message.
\<close>

record request =
  q :: string
  startIndex :: nat
  maxResults :: nat
  key :: string

datatype response =
    Ok_response "item list option"
  | Error_response nat string
  | Rejected string

type_synonym api = "request \<Rightarrow> response"

text \<open>The \<open>Error\<close> caught inside \<open>fetchGoogleBooks\<close>.\<close>

datatype fetch_error = GoogleApiError nat string | FetchFailed string

text \<open>
  The store behind \<open>supabase.from('books').insert(rows, { onConflict: column })\<close> is
  not part of the script: it is a parameter, a function from the state of the store,
  the rows and the conflict column to the \<open>error\<close> of the reply (\<open>None\<close> for
  \<open>null\<close>) and the new state.
\<close>

type_synonym 'st insert = "'st \<Rightarrow> book list \<Rightarrow> string \<Rightarrow> string option \<times> 'st"

text \<open>What the script prints, and the effects it has, in the order they happen.\<close>

datatype message =
    MissingKeys
  | CheckEnvFile
  | Starting nat string
  | FetchingPage nat nat
  | ErrorFetching fetch_error
  | NoMoreBooks
  | NoBooksFound
  | FetchedValid nat
  | ErrorInserting string
  | Processed nat
  | CheckTable
  | Uncaught js_error

datatype event =
    Console message
  | Fetch request
  | Sleep nat
  | Insert "book list" string
  | Exit nat

subsection \<open>fetchGoogleBooks\<close>

text \<open>The body of the \<open>try\<close> (lines 35 to 41): \<open>Inl\<close> is the error thrown.\<close>

definition fetch_try :: "api \<Rightarrow> request \<Rightarrow> fetch_error + item list" where
  "fetch_try api url =
     (case api url of
        Rejected m \<Rightarrow> Inl (FetchFailed m)
      | Error_response status m \<Rightarrow> Inl (GoogleApiError status m)
      | Ok_response items \<Rightarrow> Inr (case items of None \<Rightarrow> [] | Some xs \<Rightarrow> xs))"

text \<open>The \<open>catch\<close> (lines 42 to 45) prints the error and returns the empty array.\<close>

definition fetchGoogleBooks :: "string \<Rightarrow> api \<Rightarrow> string \<Rightarrow> nat \<Rightarrow> event list \<times> item list" where
  "fetchGoogleBooks googleBooksApiKey api query start =
     (let url = \<lparr>q = query, startIndex = start, maxResults = 40, key = googleBooksApiKey\<rparr>
      in case fetch_try api url of
           Inl e \<Rightarrow> ([Fetch url, Console (ErrorFetching e)], [])
         | Inr items \<Rightarrow> ([Fetch url], items))"

subsection \<open>main\<close>

definition booksPerPage :: nat where
  "booksPerPage = 40"

text \<open>\<open>Math.ceil(a / b)\<close> on natural numbers.\<close>

definition ceil_div :: "nat \<Rightarrow> nat \<Rightarrow> nat" where
  "ceil_div a b = (a + b - 1) div b"

text \<open>
  The \<open>for\<close> loop (lines 114 to 130), from the counter \<open>i\<close> on: the events of the
  remaining iterations, and either the error raised by \<open>transformBookData\<close> or the
  final \<open>allBooksToInsert\<close>.
\<close>

function fetchLoop ::
  "string \<Rightarrow> api \<Rightarrow> string \<Rightarrow> nat \<Rightarrow> nat \<Rightarrow> book list \<Rightarrow> event list \<times> (js_error + book list)" where
  "fetchLoop apiKey api searchTerm pages i allBooksToInsert =
     (if i < pages then
        (case fetchGoogleBooks apiKey api searchTerm (i * booksPerPage) of
           (ev, googleBooks) \<Rightarrow>
             if length googleBooks = 0
             then (Console (FetchingPage (i + 1) (i * booksPerPage)) # ev @ [Console NoMoreBooks],
                   Inr allBooksToInsert)
             else (case transformBookData googleBooks of
                     Inl e \<Rightarrow> (Console (FetchingPage (i + 1) (i * booksPerPage)) # ev, Inl e)
                   | Inr booksForSupabase \<Rightarrow>
                       (case fetchLoop apiKey api searchTerm pages (i + 1)
                               (allBooksToInsert @ booksForSupabase) of
                          (tr, r) \<Rightarrow>
                            (Console (FetchingPage (i + 1) (i * booksPerPage)) # ev @ [Sleep 1000] @ tr,
                             r))))
      else ([], Inr allBooksToInsert))"
  by pat_completeness auto
termination
  by (relation "measure (\<lambda>(apiKey, api, searchTerm, pages, i, allBooksToInsert). pages - i)") auto

declare fetchLoop.simps [simp del]

text \<open>
  \<open>main\<close> with its two values to change as parameters: the events, the error it
  rejects with (if any), and the state of the store afterwards.
\<close>

definition main ::
  "string \<Rightarrow> api \<Rightarrow> 'st insert \<Rightarrow> string \<Rightarrow> nat \<Rightarrow> 'st \<Rightarrow> event list \<times> js_error option \<times> 'st" where
  "main apiKey api supabase_insert searchTerm totalBooksToFetch st =
     (case fetchLoop apiKey api searchTerm (ceil_div totalBooksToFetch booksPerPage) 0 [] of
        (tr, Inl e) \<Rightarrow> (Console (Starting totalBooksToFetch searchTerm) # tr, Some e, st)
      | (tr, Inr allBooksToInsert) \<Rightarrow>
          if length allBooksToInsert = 0
          then (Console (Starting totalBooksToFetch searchTerm) # tr @ [Console NoBooksFound], None, st)
          else (case supabase_insert st allBooksToInsert ''isbn'' of
                  (error, st') \<Rightarrow>
                    (Console (Starting totalBooksToFetch searchTerm) # tr
                       @ [Console (FetchedValid (length allBooksToInsert)),
                          Insert allBooksToInsert ''isbn'']
                       @ (case error of
                            Some m \<Rightarrow> [Console (ErrorInserting m)]
                          | None \<Rightarrow> [Console (Processed (length allBooksToInsert)), Console CheckTable]),
                     None, st')))"

subsection \<open>The script\<close>

text \<open>
  The environment after \<open>dotenv\<close> has loaded the file is a map from names to values.
  The script checks the three keys (lines 10 to 19) and runs \<open>main\<close> with the values
  written in it (lines 104 and 105); an error \<open>main\<close> rejects with is printed.
\<close>

definition populate :: "(string \<rightharpoonup> string) \<Rightarrow> api \<Rightarrow> 'st insert \<Rightarrow> 'st \<Rightarrow> event list \<times> 'st" where
  "populate env api supabase_insert st =
     (let supabaseUrl = env ''SUPABASE_URL'';
          supabaseServiceKey = env ''SUPABASE_SERVICE_KEY'';
          googleBooksApiKey = env ''GOOGLE_BOOKS_API_KEY''
      in if falsy supabaseUrl \<or> falsy supabaseServiceKey \<or> falsy googleBooksApiKey
         then ([Console MissingKeys, Console CheckEnvFile, Exit 1], st)
         else (case main (the googleBooksApiKey) api supabase_insert ''best seller'' 200 st of
                 (tr, None, st') \<Rightarrow> (tr, st')
               | (tr, Some e, st') \<Rightarrow> (tr @ [Console (Uncaught e)], st')))"

subsection \<open>Reading a run\<close>

text \<open>The offsets of the fetches a run issued, and the batches it handed to the store.\<close>

fun fetches :: "event list \<Rightarrow> nat list" where
  "fetches [] = []"
| "fetches (Fetch url # es) = startIndex url # fetches es"
| "fetches (_ # es) = fetches es"

fun inserts :: "event list \<Rightarrow> (book list \<times> string) list" where
  "inserts [] = []"
| "inserts (Insert rows col # es) = (rows, col) # inserts es"
| "inserts (_ # es) = inserts es"

text \<open>The counts a run reported as processed, and the write errors it printed.\<close>

fun reported :: "event list \<Rightarrow> nat list" where
  "reported [] = []"
| "reported (Console (Processed n) # es) = n # reported es"
| "reported (_ # es) = reported es"

fun write_errors :: "event list \<Rightarrow> string list" where
  "write_errors [] = []"
| "write_errors (Console (ErrorInserting m) # es) = m # write_errors es"
| "write_errors (_ # es) = write_errors es"

text \<open>The page \<open>fetchGoogleBooks\<close> returns for the \<open>j\<close>-th iteration of the loop.\<close>

definition page :: "string \<Rightarrow> api \<Rightarrow> string \<Rightarrow> nat \<Rightarrow> item list" where
  "page apiKey api searchTerm j = snd (fetchGoogleBooks apiKey api searchTerm (j * booksPerPage))"

subsection \<open>The stores of the specification\<close>

text \<open>
  Modelled from the spec: the persistent store and its client library are not in the
  repository. The specification describes the write under the ignore policy as a
  conflict-ignore upsert on the identifier: "a write that inserts non-conflicting rows
  and silently skips rows whose unique key already exists", keeping the stored value.
  \<open>insert_ignore\<close> takes the rows of the table and the incoming records in order.
\<close>

fun insert_ignore :: "book list \<Rightarrow> book list \<Rightarrow> book list" where
  "insert_ignore rows [] = rows"
| "insert_ignore rows (b # bs) =
     (if isbn b \<in> set (map isbn rows) then insert_ignore rows bs
      else insert_ignore (rows @ [b]) bs)"

text \<open>
  Modelled from the spec: a write without the ignore policy. A key collision is a
  constraint violation: the reply carries an error and "the whole batch is considered
  not written" (section 4.4); without a collision every record is appended.
\<close>

definition strict_store :: "book list insert" where
  "strict_store rows batch col =
     (if insert_ignore rows batch = rows @ batch then (None, rows @ batch)
      else (Some ''duplicate key value violates unique constraint'', rows))"

text \<open>
  Modelled from the spec: a store for which the conflict column of the call selects
  the ignore policy on that key; \<open>isbn\<close> is the only column with a uniqueness
  constraint. With another column the write is the strict one.
\<close>

definition conflict_ignore_store :: "book list insert" where
  "conflict_ignore_store rows batch col =
     (if col = ''isbn'' then (None, insert_ignore rows batch)
      else strict_store rows batch col)"

subsection \<open>Concrete records, source APIs and environments\<close>

definition dune :: item where
  "dune = \<lparr>volumeInfo = \<lparr>volumeInfo.title = Some ''Dune'', authors = Some [''Frank Herbert''],
     industryIdentifiers = Some [\<lparr>type = ''ISBN_10'', identifier = ''0441013597''\<rparr>,
                                 \<lparr>type = ''ISBN_13'', identifier = ''9780441013593''\<rparr>],
     volumeInfo.description = None, categories = Some [''Science Fiction''],
     publishedDate = Some ''1965'', volumeInfo.imageLinks = None\<rparr>\<rparr>"

definition dune_book :: book where
  "dune_book = \<lparr>book.title = ''Dune'', author = ''Frank Herbert'', isbn = ''9780441013593'',
     description = ''No description available.'', genre = ''science'',
     publication_date = ''1965-01-01'', cover_image = None\<rparr>"

definition emma :: item where
  "emma = \<lparr>volumeInfo = \<lparr>volumeInfo.title = Some ''Emma'', authors = Some [''Jane Austen''],
     industryIdentifiers = Some [\<lparr>type = ''OTHER'', identifier = ''UOM:39015''\<rparr>,
                                 \<lparr>type = ''ISBN_10'', identifier = ''0141439580''\<rparr>],
     volumeInfo.description = Some ''A novel.'', categories = None,
     publishedDate = Some ''1815-12'', volumeInfo.imageLinks = None\<rparr>\<rparr>"

definition emma_book :: book where
  "emma_book = \<lparr>book.title = ''Emma'', author = ''Jane Austen'', isbn = ''0141439580'',
     description = ''A novel.'', genre = ''general'',
     publication_date = ''1815-12-01'', cover_image = None\<rparr>"

definition no_isbn :: item where
  "no_isbn = \<lparr>volumeInfo = volumeInfo dune
     \<lparr>industryIdentifiers := Some [\<lparr>type = ''OTHER'', identifier = ''UOM:39015''\<rparr>]\<rparr>\<rparr>"

definition no_author :: item where
  "no_author = \<lparr>volumeInfo = volumeInfo dune \<lparr>authors := Some []\<rparr>\<rparr>"

definition no_category :: item where
  "no_category = \<lparr>volumeInfo = volumeInfo dune \<lparr>categories := Some []\<rparr>\<rparr>"

definition dune_dated :: "string option \<Rightarrow> item" where
  "dune_dated d = \<lparr>volumeInfo = volumeInfo dune \<lparr>publishedDate := d\<rparr>\<rparr>"

definition url_at :: "nat \<Rightarrow> request" where
  "url_at n = \<lparr>q = ''best seller'', startIndex = n, maxResults = 40, key = ''k''\<rparr>"

definition api_single_page :: api where
  "api_single_page url =
     (if startIndex url = 0 then Ok_response (Some [dune]) else Ok_response None)"

definition api_second_page_fails :: api where
  "api_second_page_fails url =
     (if startIndex url = 0 then Ok_response (Some [dune])
      else Error_response 500 ''Backend Error'')"

definition api_one_book_per_page :: api where
  "api_one_book_per_page url = Ok_response (Some [dune])"

definition env_full :: "string \<rightharpoonup> string" where
  "env_full = [''SUPABASE_URL'' \<mapsto> ''https://db.example'', ''SUPABASE_SERVICE_KEY'' \<mapsto> ''s'',
               ''GOOGLE_BOOKS_API_KEY'' \<mapsto> ''k'']"

definition env_no_api_key :: "string \<rightharpoonup> string" where
  "env_no_api_key =
     [''SUPABASE_URL'' \<mapsto> ''https://db.example'', ''SUPABASE_SERVICE_KEY'' \<mapsto> ''s'']"

section \<open>The normalizer\<close>

subsection \<open>Built-ins\<close>

lemma split_nonempty: "split sep s \<noteq> []"
  by (induction s) (auto split: list.splits)

lemma hd_split: "hd (split sep s) = takeWhile (\<lambda>c. c \<noteq> sep) s"
  by (induction s) (auto split: list.splits simp: split_nonempty)

lemma find_filter_hd:
  "List.find P xs = (case filter P xs of [] \<Rightarrow> None | x # _ \<Rightarrow> Some x)"
  by (induction xs) auto

lemma filter_Boolean_length: "length (filter_Boolean ys) \<le> length ys"
  by (induction ys rule: filter_Boolean.induct) auto

lemma map_raising_subseq:
  "map_raising f xs = Inr ys \<Longrightarrow>
     length ys = length xs \<and>
     (\<exists>zs. subseq zs xs \<and> list_all2 (\<lambda>x y. f x = Inr (Some y)) zs (filter_Boolean ys))"
proof (induction xs arbitrary: ys)
  case Nil
  then show ?case by auto
next
  case (Cons x xs)
  then obtain y ys' where fx: "f x = Inr y"
    and rest: "map_raising f xs = Inr ys'" and ys: "ys = y # ys'"
    by (auto split: sum.splits)
  from Cons.IH [OF rest] obtain zs where zs: "length ys' = length xs" "subseq zs xs"
    "list_all2 (\<lambda>x y. f x = Inr (Some y)) zs (filter_Boolean ys')" by blast
  show ?case
  proof (cases y)
    case None
    with zs ys show ?thesis by (auto intro!: exI [of _ zs])
  next
    case (Some b)
    with zs ys fx show ?thesis by (auto intro!: exI [of _ "x # zs"])
  qed
qed

lemma map_raising_rows:
  "map_raising f xs = Inr os \<Longrightarrow>
     list_all2 (\<lambda>x y. f x = Inr (Some y)) (filter (\<lambda>x. f x \<noteq> Inr None) xs) (filter_Boolean os)"
proof (induction xs arbitrary: os)
  case Nil
  then show ?case by auto
next
  case (Cons x xs)
  then obtain y os' where fx: "f x = Inr y"
    and rest: "map_raising f xs = Inr os'" and os: "os = y # os'"
    by (auto split: sum.splits)
  from Cons.IH [OF rest] fx os show ?case by (cases y) auto
qed

lemma map_raising_returns_iff:
  "(\<exists>os. map_raising f xs = Inr os) \<longleftrightarrow> (\<forall>x\<in>set xs. \<forall>e. f x \<noteq> Inl e)"
proof (induction xs)
  case Nil
  then show ?case by simp
next
  case (Cons x xs)
  show ?case
  proof (cases "f x")
    case (Inl e)
    then show ?thesis by auto
  next
    case (Inr y)
    with Cons.IH show ?thesis by (auto split: sum.splits)
  qed
qed

lemma list_all2_map_eq:
  "list_all2 (\<lambda>a b. h a = g b) as bs \<Longrightarrow> map g bs = map h as"
  by (induction rule: list_all2_induct) auto

subsection \<open>The three outcomes of the callback\<close>

text \<open>
  A record is skipped exactly when the title is undefined or empty, \<open>authors\<close> is
  undefined, or no identifier of either scheme is found. A record that is not skipped
  raises exactly when \<open>categories\<close> is the empty array. Otherwise the callback returns
  one row, whose genre is the first category in lower case up to its first space.
\<close>

lemma transformItem_skip_iff:
  "transformItem it = Inr None \<longleftrightarrow>
     falsy (volumeInfo.title (volumeInfo it)) \<or> authors (volumeInfo it) = None \<or>
     (find_opt (\<lambda>i. type i = ''ISBN_13'') (industryIdentifiers (volumeInfo it)) = None \<and>
      find_opt (\<lambda>i. type i = ''ISBN_10'') (industryIdentifiers (volumeInfo it)) = None)"
  by (auto simp: transformItem_def Let_def split: sum.splits)

lemma transformItem_raise_iff:
  "transformItem it = Inl e \<longleftrightarrow>
     transformItem it \<noteq> Inr None \<and> categories (volumeInfo it) = Some []"
  by (cases e) (auto simp: transformItem_def Let_def genre_of_def first_def
      split: sum.splits option.splits list.splits)

lemma transformItem_skip_validated: "transformItem it = Inr None \<longleftrightarrow> \<not> validated it"
  by (auto simp: transformItem_skip_iff validated_def find_opt_def find_None_iff list_ex_iff
      split: option.splits)

lemma transformItem_publication_date:
  assumes "transformItem it = Inr (Some b)"
  shows "publication_date b =
     (case publishedDate (volumeInfo it) of
        None \<Rightarrow> ''1970-01-01''
      | Some d \<Rightarrow>
          if length d = 4 then d @ ''-01-01''
          else if length d = 7 then d @ ''-01''
          else if 10 \<le> length d then take 10 d
          else ''1970-01-01'')"
  using assms
  by (auto simp: transformItem_def Let_def publicationDate_def falsy_def
      split: if_splits sum.splits option.splits)

lemma transformItem_isbn:
  assumes "transformItem it = Inr (Some b)"
  shows "(case industryIdentifiers (volumeInfo it) of
            None \<Rightarrow> False
          | Some ids \<Rightarrow>
              (case filter (\<lambda>i. type i = ''ISBN_13'') ids of
                 i # _ \<Rightarrow> isbn b = identifier i
               | [] \<Rightarrow>
                   (case filter (\<lambda>i. type i = ''ISBN_10'') ids of
                      i # _ \<Rightarrow> isbn b = identifier i
                    | [] \<Rightarrow> False)))"
  using assms
  by (auto simp: transformItem_def Let_def find_opt_def find_filter_hd
      split: if_splits sum.splits option.splits list.splits)

lemma genre_first_word:
  assumes "transformItem it = Inr (Some b)"
  shows "genre b =
     (case categories (volumeInfo it) of
        None \<Rightarrow> ''general''
      | Some cs \<Rightarrow> takeWhile (\<lambda>ch. ch \<noteq> CHR '' '') (toLowerCase (hd cs)))"
  using assms
  by (auto simp: transformItem_def Let_def genre_of_def first_def hd_split
      split: if_splits sum.splits option.splits list.splits)

lemma transformItem_dune: "transformItem dune = Inr (Some dune_book)"
  by code_simp

lemma transformItem_emma: "transformItem emma = Inr (Some emma_book)"
  by code_simp

lemma transformBookData_dune: "transformBookData [dune] = Inr [dune_book]"
  by (simp add: transformBookData_def transformItem_dune)

subsection \<open>The rows of a page\<close>

text \<open>
  When \<open>transformBookData\<close> returns, its rows are, in order, the rows of the callback
  for the validated records of the page, one row for each. It returns exactly when no
  validated record of the page has an empty category list.
\<close>

lemma transformBookData_rows:
  assumes "transformBookData xs = Inr ys"
  shows "list_all2 (\<lambda>it b. transformItem it = Inr (Some b)) (filter validated xs) ys"
proof -
  from assms obtain os where os: "map_raising transformItem xs = Inr os"
    and ys: "ys = filter_Boolean os"
    by (auto simp: transformBookData_def split: sum.splits)
  have "filter (\<lambda>x. transformItem x \<noteq> Inr None) xs = filter validated xs"
    by (simp add: transformItem_skip_validated)
  with map_raising_rows [OF os] ys show ?thesis by simp
qed

lemma transformBookData_returns_iff:
  "(\<exists>ys. transformBookData xs = Inr ys) \<longleftrightarrow>
     (\<forall>it\<in>set xs. validated it \<longrightarrow> categories (volumeInfo it) \<noteq> Some [])"
proof -
  have "(\<exists>ys. transformBookData xs = Inr ys) \<longleftrightarrow> (\<exists>os. map_raising transformItem xs = Inr os)"
    by (auto simp: transformBookData_def split: sum.splits)
  also have "\<dots> \<longleftrightarrow> (\<forall>it\<in>set xs. \<forall>e. transformItem it \<noteq> Inl e)"
    by (rule map_raising_returns_iff)
  also have "\<dots> \<longleftrightarrow> (\<forall>it\<in>set xs. validated it \<longrightarrow> categories (volumeInfo it) \<noteq> Some [])"
    by (simp add: transformItem_raise_iff transformItem_skip_validated)
  finally show ?thesis .
qed

subsection \<open>Claims about the normalizer\<close>

text \<open>
  C2. The claim: a record missing a title, missing every author or missing every
  identifier is excluded, and every other record gives exactly one row. The code tests
  \<open>!vol.authors\<close>, and an empty array is truthy: the record \<open>no_author\<close>, whose author
  list is empty, is kept, with the empty string as its author.
\<close>

theorem empty_author_list_is_kept:
  "authors (volumeInfo no_author) = Some [] \<and>
   transformBookData [no_author] = Inr [dune_book \<lparr>author := []\<rparr>]"
  by code_simp

text \<open>
  C3. Whenever the normalizer \<open>transformBookData\<close> returns, it gives one row for each
  validated record of the page, in order, and the publication date of the row is
  derived from the date string of its record by the length of the string: length 4
  appends \<open>-01-01\<close>, length 7 appends \<open>-01\<close>, length 10 or more keeps the first 10
  characters, any other length and an absent date give the default date
  \<open>1970-01-01\<close>. The normalizer returns on every page in which no validated record
  has an empty category list.
\<close>

theorem normalizer_publication_dates:
  "(transformBookData xs = Inr ys \<longrightarrow>
      map publication_date ys =
        map (\<lambda>it. case publishedDate (volumeInfo it) of
                     None \<Rightarrow> ''1970-01-01''
                   | Some d \<Rightarrow>
                       if length d = 4 then d @ ''-01-01''
                       else if length d = 7 then d @ ''-01''
                       else if 10 \<le> length d then take 10 d
                       else ''1970-01-01'')
            (filter validated xs))
   \<and> ((\<forall>it\<in>set xs. validated it \<longrightarrow> categories (volumeInfo it) \<noteq> Some [])
        \<longrightarrow> (\<exists>rows. transformBookData xs = Inr rows))"
proof (intro conjI impI)
  assume r: "transformBookData xs = Inr ys"
  have "list_all2 (\<lambda>it b.
          (case publishedDate (volumeInfo it) of
                     None \<Rightarrow> ''1970-01-01''
                   | Some d \<Rightarrow>
                       if length d = 4 then d @ ''-01-01''
                       else if length d = 7 then d @ ''-01''
                       else if 10 \<le> length d then take 10 d
                       else ''1970-01-01'') = publication_date b) (filter validated xs) ys"
    by (rule list_all2_mono [OF transformBookData_rows [OF r]])
       (simp add: transformItem_publication_date)
  then show "map publication_date ys =
        map (\<lambda>it. case publishedDate (volumeInfo it) of
                     None \<Rightarrow> ''1970-01-01''
                   | Some d \<Rightarrow>
                       if length d = 4 then d @ ''-01-01''
                       else if length d = 7 then d @ ''-01''
                       else if 10 \<le> length d then take 10 d
                       else ''1970-01-01'')
            (filter validated xs)"
    by (rule list_all2_map_eq)
next
  assume "\<forall>it\<in>set xs. validated it \<longrightarrow> categories (volumeInfo it) \<noteq> Some []"
  then show "\<exists>rows. transformBookData xs = Inr rows"
    by (simp add: transformBookData_returns_iff)
qed

text \<open>
  C3, at a page of a record without identifier and of validated records with a year,
  a year and a month, a time stamp, a string of length 3, and no date.
\<close>

theorem normalizer_publication_dates_witness:
  "transformBookData
     [no_isbn, dune, emma, dune_dated (Some ''2001-02-03T04:05''), dune_dated (Some ''196''),
      dune_dated None]
   = Inr [dune_book, emma_book, dune_book \<lparr>publication_date := ''2001-02-03''\<rparr>,
          dune_book \<lparr>publication_date := ''1970-01-01''\<rparr>,
          dune_book \<lparr>publication_date := ''1970-01-01''\<rparr>]
   \<and> map publication_date
       [dune_book, emma_book, dune_book \<lparr>publication_date := ''2001-02-03''\<rparr>,
        dune_book \<lparr>publication_date := ''1970-01-01''\<rparr>,
        dune_book \<lparr>publication_date := ''1970-01-01''\<rparr>]
     = [''1965'' @ ''-01-01'', ''1815-12'' @ ''-01'', take 10 ''2001-02-03T04:05'',
        ''1970-01-01'', ''1970-01-01'']"
proof -
  have h: "transformBookData
     [no_isbn, dune, emma, dune_dated (Some ''2001-02-03T04:05''), dune_dated (Some ''196''),
      dune_dated None]
   = Inr [dune_book, emma_book, dune_book \<lparr>publication_date := ''2001-02-03''\<rparr>,
          dune_book \<lparr>publication_date := ''1970-01-01''\<rparr>,
          dune_book \<lparr>publication_date := ''1970-01-01''\<rparr>]"
    by code_simp
  have c: "\<forall>it\<in>set [no_isbn, dune, emma, dune_dated (Some ''2001-02-03T04:05''),
              dune_dated (Some ''196''), dune_dated None].
            validated it \<longrightarrow> categories (volumeInfo it) \<noteq> Some []"
    by code_simp
  have v: "filter validated
     [no_isbn, dune, emma, dune_dated (Some ''2001-02-03T04:05''), dune_dated (Some ''196''),
      dune_dated None]
     = [dune, emma, dune_dated (Some ''2001-02-03T04:05''), dune_dated (Some ''196''),
        dune_dated None]"
    by code_simp
  have d: "publishedDate (volumeInfo dune) = Some ''1965''"
    "publishedDate (volumeInfo emma) = Some ''1815-12''"
    "publishedDate (volumeInfo (dune_dated (Some ''2001-02-03T04:05''))) = Some ''2001-02-03T04:05''"
    "publishedDate (volumeInfo (dune_dated (Some ''196''))) = Some ''196''"
    "publishedDate (volumeInfo (dune_dated None)) = None"
    by (simp_all add: dune_def emma_def dune_dated_def)
  note t = normalizer_publication_dates
      [of "[no_isbn, dune, emma, dune_dated (Some ''2001-02-03T04:05''), dune_dated (Some ''196''),
            dune_dated None]"
          "[dune_book, emma_book, dune_book \<lparr>publication_date := ''2001-02-03''\<rparr>,
          dune_book \<lparr>publication_date := ''1970-01-01''\<rparr>,
          dune_book \<lparr>publication_date := ''1970-01-01''\<rparr>]"]
  note m = t [THEN conjunct1, THEN mp, OF h, unfolded v]
  note e = t [THEN conjunct2, THEN mp, OF c]
  show ?thesis using h m e by (simp add: d)
qed

text \<open>
  C4. Whenever the normalizer \<open>transformBookData\<close> returns, it gives one row for each
  validated record of the page, in order, and the identifier of the row is chosen from
  the identifiers of its record: that of the first entry of the 13-digit scheme when
  there is one, whether or not an entry of the 10-digit scheme is present, and that of
  the first entry of the 10-digit scheme otherwise. The normalizer returns on every
  page in which no validated record has an empty category list.
\<close>

theorem normalizer_isbns:
  "(transformBookData xs = Inr ys \<longrightarrow>
      list_all2
        (\<lambda>it b. case industryIdentifiers (volumeInfo it) of
                   None \<Rightarrow> False
                 | Some ids \<Rightarrow>
                     (case filter (\<lambda>i. type i = ''ISBN_13'') ids of
                        i # _ \<Rightarrow> isbn b = identifier i
                      | [] \<Rightarrow>
                          (case filter (\<lambda>i. type i = ''ISBN_10'') ids of
                             i # _ \<Rightarrow> isbn b = identifier i
                           | [] \<Rightarrow> False)))
        (filter validated xs) ys)
   \<and> ((\<forall>it\<in>set xs. validated it \<longrightarrow> categories (volumeInfo it) \<noteq> Some [])
        \<longrightarrow> (\<exists>rows. transformBookData xs = Inr rows))"
proof (intro conjI impI)
  assume r: "transformBookData xs = Inr ys"
  show "list_all2
        (\<lambda>it b. case industryIdentifiers (volumeInfo it) of
                   None \<Rightarrow> False
                 | Some ids \<Rightarrow>
                     (case filter (\<lambda>i. type i = ''ISBN_13'') ids of
                        i # _ \<Rightarrow> isbn b = identifier i
                      | [] \<Rightarrow>
                          (case filter (\<lambda>i. type i = ''ISBN_10'') ids of
                             i # _ \<Rightarrow> isbn b = identifier i
                           | [] \<Rightarrow> False)))
        (filter validated xs) ys"
    by (rule list_all2_mono [OF transformBookData_rows [OF r]]) (rule transformItem_isbn)
next
  assume "\<forall>it\<in>set xs. validated it \<longrightarrow> categories (volumeInfo it) \<noteq> Some []"
  then show "\<exists>rows. transformBookData xs = Inr rows"
    by (simp add: transformBookData_returns_iff)
qed

text \<open>
  C4, at a page of a record without identifier, of \<open>dune\<close> (the 10-digit entry comes
  first, the 13-digit one is chosen) and of \<open>emma\<close> (only a 10-digit entry, after an
  entry of another scheme).
\<close>

theorem normalizer_isbns_witness:
  "transformBookData [no_isbn, dune, emma] = Inr [dune_book, emma_book]
   \<and> filter validated [no_isbn, dune, emma] = [dune, emma]
   \<and> list_all2
        (\<lambda>it b. case industryIdentifiers (volumeInfo it) of
                   None \<Rightarrow> False
                 | Some ids \<Rightarrow>
                     (case filter (\<lambda>i. type i = ''ISBN_13'') ids of
                        i # _ \<Rightarrow> isbn b = identifier i
                      | [] \<Rightarrow>
                          (case filter (\<lambda>i. type i = ''ISBN_10'') ids of
                             i # _ \<Rightarrow> isbn b = identifier i
                           | [] \<Rightarrow> False)))
        [dune, emma] [dune_book, emma_book]
   \<and> map isbn [dune_book, emma_book] = [''9780441013593'', ''0141439580'']"
proof -
  have h: "transformBookData [no_isbn, dune, emma] = Inr [dune_book, emma_book]"
    by code_simp
  have c: "\<forall>it\<in>set [no_isbn, dune, emma].
            validated it \<longrightarrow> categories (volumeInfo it) \<noteq> Some []"
    by code_simp
  have v: "filter validated [no_isbn, dune, emma] = [dune, emma]"
    by code_simp
  have i: "map isbn [dune_book, emma_book] = [''9780441013593'', ''0141439580'']"
    by (simp add: dune_book_def emma_book_def)
  from h c normalizer_isbns [of "[no_isbn, dune, emma]" "[dune_book, emma_book]"]
  show ?thesis unfolding v using i by blast
qed

text \<open>
  C5. The claim: the genre is the first category in lower case up to its first space,
  and the default token for a record with no category. The code tests
  \<open>vol.categories\<close>, and an empty array is truthy: on the record \<open>no_category\<close>, whose
  category list is empty, \<open>categories[0]\<close> is undefined and the callback raises; the
  raise ends \<open>transformBookData\<close> for the whole page, valid records included.
\<close>

theorem empty_category_list_raises:
  "categories (volumeInfo no_category) = Some [] \<and>
   transformItem no_category = Inl TypeError \<and>
   transformBookData [dune, no_category] = Inl TypeError"
  by code_simp

text \<open>
  C10. When \<open>transformBookData\<close> returns, its output is no longer than its input, and
  the output rows are, in order, the rows the callback gives for the records of a
  subsequence of the input, one row for one record.
\<close>

theorem normalizer_output_from_input:
  assumes "transformBookData xs = Inr ys"
  shows "length ys \<le> length xs \<and>
         (\<exists>zs. subseq zs xs \<and> list_all2 (\<lambda>x y. transformItem x = Inr (Some y)) zs ys)"
proof -
  from assms obtain os where os: "map_raising transformItem xs = Inr os"
    and ys: "ys = filter_Boolean os"
    by (auto simp: transformBookData_def split: sum.splits)
  from map_raising_subseq [OF os] filter_Boolean_length [of os] ys show ?thesis by simp
qed

text \<open>C10, at a page of a record without identifier and a valid record.\<close>

theorem normalizer_output_from_input_witness:
  "transformBookData [no_isbn, dune] = Inr [dune_book] \<and>
   length [dune_book] \<le> length [no_isbn, dune] \<and>
   (\<exists>zs. subseq zs [no_isbn, dune] \<and>
         list_all2 (\<lambda>x y. transformItem x = Inr (Some y)) zs [dune_book])"
proof -
  have h: "transformBookData [no_isbn, dune] = Inr [dune_book]" by code_simp
  show ?thesis using h normalizer_output_from_input [OF h] by simp
qed

section \<open>The run\<close>

subsection \<open>Events of the loop\<close>

lemma fetches_append [simp]: "fetches (xs @ ys) = fetches xs @ fetches ys"
  by (induction xs rule: fetches.induct) auto

lemma inserts_append [simp]: "inserts (xs @ ys) = inserts xs @ inserts ys"
  by (induction xs rule: inserts.induct) auto

lemma fetchGoogleBooks_events:
  "fetchGoogleBooks k api s n = (ev, gb) \<Longrightarrow> fetches ev = [n] \<and> inserts ev = []"
  by (auto simp: fetchGoogleBooks_def Let_def split: sum.splits)

lemma fetchLoop_done: "\<not> i < pages \<Longrightarrow> fetchLoop k api s pages i acc = ([], Inr acc)"
  by (simp add: fetchLoop.simps [of k api s pages i acc])

lemma fetchLoop_empty:
  assumes "i < pages" and "fetchGoogleBooks k api s (i * booksPerPage) = (ev, [])"
  shows "fetchLoop k api s pages i acc =
           (Console (FetchingPage (i + 1) (i * booksPerPage)) # ev @ [Console NoMoreBooks], Inr acc)"
  using assms by (simp add: fetchLoop.simps [of k api s pages i acc])

lemma fetchLoop_raise:
  assumes "i < pages" and "fetchGoogleBooks k api s (i * booksPerPage) = (ev, gb)"
    and "gb \<noteq> []" and "transformBookData gb = Inl e"
  shows "fetchLoop k api s pages i acc =
           (Console (FetchingPage (i + 1) (i * booksPerPage)) # ev, Inl e)"
  using assms by (simp add: fetchLoop.simps [of k api s pages i acc])

lemma fetchLoop_step:
  assumes "i < pages" and "fetchGoogleBooks k api s (i * booksPerPage) = (ev, gb)"
    and "gb \<noteq> []" and "transformBookData gb = Inr bs"
    and "fetchLoop k api s pages (Suc i) (acc @ bs) = (tr, r)"
  shows "fetchLoop k api s pages i acc =
           (Console (FetchingPage (i + 1) (i * booksPerPage)) # ev @ [Sleep 1000] @ tr, r)"
  using assms by (simp add: fetchLoop.simps [of k api s pages i acc])

lemma fetchLoop_inserts:
  "inserts (fst (fetchLoop k api s pages i acc)) = []"
proof (induction k api s pages i acc rule: fetchLoop.induct)
  case (1 k api s pages i acc)
  show ?case
  proof (cases "i < pages")
    case False
    then show ?thesis by (simp add: fetchLoop_done)
  next
    case True
    obtain ev gb where f: "fetchGoogleBooks k api s (i * booksPerPage) = (ev, gb)"
      by (cases "fetchGoogleBooks k api s (i * booksPerPage)")
    have ev: "inserts ev = []" using fetchGoogleBooks_events [OF f] by simp
    show ?thesis
    proof (cases "gb = []")
      case True
      with \<open>i < pages\<close> f ev show ?thesis by (simp add: fetchLoop_empty)
    next
      case False
      show ?thesis
      proof (cases "transformBookData gb")
        case (Inl e)
        with \<open>i < pages\<close> f ev False show ?thesis by (simp add: fetchLoop_raise)
      next
        case (Inr bs)
        obtain tr r where rec: "fetchLoop k api s pages (Suc i) (acc @ bs) = (tr, r)"
          by (cases "fetchLoop k api s pages (Suc i) (acc @ bs)")
        have "inserts (fst (fetchLoop k api s pages (Suc i) (acc @ bs))) = []"
          using "1.IH" [OF True f [symmetric] _ Inr] False by simp
        then have "inserts tr = []" by (simp add: rec)
        with ev show ?thesis by (simp add: fetchLoop_step [OF True f False Inr rec])
      qed
    qed
  qed
qed

lemma reported_append [simp]: "reported (xs @ ys) = reported xs @ reported ys"
  by (induction xs rule: reported.induct) auto

lemma write_errors_append [simp]: "write_errors (xs @ ys) = write_errors xs @ write_errors ys"
  by (induction xs rule: write_errors.induct) auto



lemma fetchLoop_length_fetches:
  "length (fetches (fst (fetchLoop k api s pages i acc))) \<le> pages - i"
proof (induction k api s pages i acc rule: fetchLoop.induct)
  case (1 k api s pages i acc)
  show ?case
  proof (cases "i < pages")
    case False
    then show ?thesis by (simp add: fetchLoop_done)
  next
    case True
    obtain ev gb where f: "fetchGoogleBooks k api s (i * booksPerPage) = (ev, gb)"
      by (cases "fetchGoogleBooks k api s (i * booksPerPage)")
    have ev: "fetches ev = [i * booksPerPage]" using fetchGoogleBooks_events [OF f] by simp
    show ?thesis
    proof (cases "gb = []")
      case True
      with \<open>i < pages\<close> f ev show ?thesis by (simp add: fetchLoop_empty)
    next
      case False
      show ?thesis
      proof (cases "transformBookData gb")
        case (Inl e)
        with \<open>i < pages\<close> f ev False show ?thesis by (simp add: fetchLoop_raise)
      next
        case (Inr bs)
        obtain tr r where rec: "fetchLoop k api s pages (Suc i) (acc @ bs) = (tr, r)"
          by (cases "fetchLoop k api s pages (Suc i) (acc @ bs)")
        have "length (fetches (fst (fetchLoop k api s pages (Suc i) (acc @ bs)))) \<le> pages - Suc i"
          using "1.IH" [OF True f [symmetric] _ Inr] False by simp
        then have "length (fetches tr) \<le> pages - Suc i" by (simp add: rec)
        with ev True show ?thesis by (simp add: fetchLoop_step [OF True f False Inr rec])
      qed
    qed
  qed
qed

lemma fetchLoop_empty_page:
  assumes "i < pages" and "page k api s i = []"
  shows "fetches (fst (fetchLoop k api s pages i acc)) = [i * booksPerPage]
         \<and> snd (fetchLoop k api s pages i acc) = Inr acc"
proof -
  obtain ev gb where f: "fetchGoogleBooks k api s (i * booksPerPage) = (ev, gb)"
    by (cases "fetchGoogleBooks k api s (i * booksPerPage)")
  with assms(2) have gb: "gb = []" by (simp add: page_def)
  show ?thesis
    using fetchGoogleBooks_events [OF f] fetchLoop_empty [OF assms(1) f [unfolded gb], of acc]
    by simp
qed

lemma fetchLoop_good_page:
  assumes "i < pages" and "page k api s i \<noteq> []" and "transformBookData (page k api s i) = Inr bs"
  shows "fetches (fst (fetchLoop k api s pages i acc)) =
           (i * booksPerPage) # fetches (fst (fetchLoop k api s pages (Suc i) (acc @ bs)))
         \<and> snd (fetchLoop k api s pages i acc) = snd (fetchLoop k api s pages (Suc i) (acc @ bs))"
proof -
  obtain ev gb where f: "fetchGoogleBooks k api s (i * booksPerPage) = (ev, gb)"
    by (cases "fetchGoogleBooks k api s (i * booksPerPage)")
  then have gb: "page k api s i = gb" by (simp add: page_def)
  obtain tr r where rec: "fetchLoop k api s pages (Suc i) (acc @ bs) = (tr, r)"
    by (cases "fetchLoop k api s pages (Suc i) (acc @ bs)")
  show ?thesis
    using fetchGoogleBooks_events [OF f]
      fetchLoop_step [OF assms(1) f assms(2) [unfolded gb] assms(3) [unfolded gb] rec]
    by (simp add: rec)
qed

lemma fetchLoop_good_pages:
  assumes "\<forall>j. i \<le> j \<and> j < i + n \<longrightarrow>
             page k api s j \<noteq> [] \<and> transformBookData (page k api s j) = Inr (bs j)"
    and "i + n \<le> pages"
  shows "fetches (fst (fetchLoop k api s pages i acc)) =
           map (\<lambda>j. j * booksPerPage) [i..<i + n]
           @ fetches (fst (fetchLoop k api s pages (i + n) (acc @ concat (map bs [i..<i + n]))))
         \<and> snd (fetchLoop k api s pages i acc) =
           snd (fetchLoop k api s pages (i + n) (acc @ concat (map bs [i..<i + n])))"
  using assms
proof (induction n arbitrary: i acc)
  case 0
  then show ?case by simp
next
  case (Suc n)
  have i: "i < pages" using Suc.prems(2) by simp
  have g: "page k api s i \<noteq> []" "transformBookData (page k api s i) = Inr (bs i)"
    using Suc.prems(1) by auto
  have rest: "\<forall>j. Suc i \<le> j \<and> j < Suc i + n \<longrightarrow>
             page k api s j \<noteq> [] \<and> transformBookData (page k api s j) = Inr (bs j)"
    using Suc.prems(1) by auto
  have le: "Suc i + n \<le> pages" using Suc.prems(2) by simp
  have up: "[i..<Suc (i + n)] = i # [Suc i..<Suc (i + n)]"
    by (simp add: upt_conv_Cons)
  show ?case
    using Suc.IH [OF rest le, of "acc @ bs i"] fetchLoop_good_page [OF i g, of acc]
    by (simp add: up del: upt_Suc)
qed

lemma fetchLoop_first_fetch:
  assumes "i < pages"
  shows "\<exists>rest. fetches (fst (fetchLoop k api s pages i acc)) = (i * booksPerPage) # rest"
proof -
  obtain ev gb where f: "fetchGoogleBooks k api s (i * booksPerPage) = (ev, gb)"
    by (cases "fetchGoogleBooks k api s (i * booksPerPage)")
  note ev = fetchGoogleBooks_events [OF f]
  show ?thesis
  proof (cases "gb = []")
    case True
    with assms f ev show ?thesis by (simp add: fetchLoop_empty)
  next
    case False
    show ?thesis
    proof (cases "transformBookData gb")
      case (Inl e)
      with assms f ev False show ?thesis by (simp add: fetchLoop_raise)
    next
      case (Inr bs)
      obtain tr r where rec: "fetchLoop k api s pages (Suc i) (acc @ bs) = (tr, r)"
        by (cases "fetchLoop k api s pages (Suc i) (acc @ bs)")
      with ev show ?thesis by (simp add: fetchLoop_step [OF assms f False Inr rec])
    qed
  qed
qed

subsection \<open>From the loop to main\<close>

text \<open>
  The fetches of \<open>main\<close> are those of its loop. When the loop ends without a raise,
  \<open>main\<close> does not fail and writes the rows of the loop in one call, if there are any.
  After \<open>n\<close> pages that are not empty and that \<open>transformBookData\<close> accepts, an empty
  page ends the loop with the rows of these pages.
\<close>

lemma main_fetches:
  "fetches (fst (main k api ins s target st)) =
     fetches (fst (fetchLoop k api s (ceil_div target booksPerPage) 0 []))"
  by (auto simp: main_def split: prod.splits sum.splits option.splits)

lemma main_after_loop:
  assumes "snd (fetchLoop k api s (ceil_div target booksPerPage) 0 []) = Inr all"
  shows "inserts (fst (main k api ins s target st)) = (if all = [] then [] else [(all, ''isbn'')])
       \<and> fst (snd (main k api ins s target st)) = None
       \<and> snd (snd (main k api ins s target st)) = (if all = [] then st else snd (ins st all ''isbn''))"
proof -
  obtain tr where l: "fetchLoop k api s (ceil_div target booksPerPage) 0 [] = (tr, Inr all)"
    using assms by (cases "fetchLoop k api s (ceil_div target booksPerPage) 0 []") simp
  have "inserts tr = []" using fetchLoop_inserts [of k api s "ceil_div target booksPerPage" 0 "[]"] l by simp
  then show ?thesis
    by (auto simp: main_def l split: prod.splits option.splits)
qed

lemma loop_stops_at_empty_page:
  assumes "\<forall>j<n. page k api s j \<noteq> [] \<and> transformBookData (page k api s j) = Inr (bs j)"
    and "n < pages" and "page k api s n = []"
  shows "fetches (fst (fetchLoop k api s pages 0 [])) = map (\<lambda>j. j * booksPerPage) [0..<Suc n]
       \<and> snd (fetchLoop k api s pages 0 []) = Inr (concat (map bs [0..<n]))"
proof -
  have g: "\<forall>j. 0 \<le> j \<and> j < 0 + n \<longrightarrow>
             page k api s j \<noteq> [] \<and> transformBookData (page k api s j) = Inr (bs j)"
    using assms(1) by simp
  have le: "0 + n \<le> pages" using assms(2) by simp
  show ?thesis
    using fetchLoop_good_pages [OF g le, of "[]"]
      fetchLoop_empty_page [OF assms(2,3), of "concat (map bs [0..<n])"]
    by simp
qed

subsection \<open>The pages of the concrete source APIs\<close>

lemma page_single_0: "page ''k'' api_single_page ''best seller'' 0 = [dune]"
  by (simp add: page_def fetchGoogleBooks_def fetch_try_def api_single_page_def)

lemma page_single_1: "page ''k'' api_single_page ''best seller'' 1 = []"
  by (simp add: page_def fetchGoogleBooks_def fetch_try_def api_single_page_def booksPerPage_def)

lemma page_fails_0: "page ''k'' api_second_page_fails ''best seller'' 0 = [dune]"
  by (simp add: page_def fetchGoogleBooks_def fetch_try_def api_second_page_fails_def)

lemma page_one_book: "page ''k'' api_one_book_per_page ''best seller'' j = [dune]"
  by (simp add: page_def fetchGoogleBooks_def fetch_try_def api_one_book_per_page_def)


subsection \<open>A failed fetch\<close>

lemma fetch_failure_empty_page:
  assumes "fetch_try api \<lparr>q = s, startIndex = n * booksPerPage, maxResults = 40, key = k\<rparr> = Inl e"
  shows "fetchGoogleBooks k api s (n * booksPerPage) =
           ([Fetch \<lparr>q = s, startIndex = n * booksPerPage, maxResults = 40, key = k\<rparr>,
             Console (ErrorFetching e)], [])"
  using assms by (simp add: fetchGoogleBooks_def)

subsection \<open>Properties of the conflict-ignore store\<close>

lemma insert_ignore_prefix: "prefix rows (insert_ignore rows bs)"
proof (induction bs arbitrary: rows)
  case Nil
  then show ?case by simp
next
  case (Cons b bs)
  show ?case using Cons.IH [of rows] Cons.IH [of "rows @ [b]"]
    by (auto dest: append_prefixD)
qed

lemma insert_ignore_distinct:
  "distinct (map isbn rows) \<Longrightarrow> distinct (map isbn (insert_ignore rows bs))"
  by (induction bs arbitrary: rows) auto

lemma insert_ignore_isbns:
  "set (map isbn (insert_ignore rows bs)) = set (map isbn rows) \<union> set (map isbn bs)"
  by (induction bs arbitrary: rows) auto

lemma insert_ignore_present:
  "\<forall>b\<in>set bs. isbn b \<in> set (map isbn rows) \<Longrightarrow> insert_ignore rows bs = rows"
  by (induction bs arbitrary: rows) auto

subsection \<open>Claims about the run\<close>

text \<open>
  C1, the claim as stated: a failed fetch ends the run as failed and nothing fetched in
  that run is persisted. It fails on the run against \<open>api_second_page_fails\<close>: the
  fetch at offset 40 gets status 500, the \<open>catch\<close> of \<open>fetchGoogleBooks\<close> prints
  the error and returns the empty array, the loop stops as on an exhausted source, and
  the row of the first page is written and reported as processed.
\<close>

theorem partial_run_is_persisted:
  "fetch_try api_second_page_fails (url_at 40) = Inl (GoogleApiError 500 ''Backend Error'')
   \<and> main ''k'' api_second_page_fails conflict_ignore_store ''best seller'' 200 [] =
       ([Console (Starting 200 ''best seller''),
         Console (FetchingPage 1 0), Fetch (url_at 0), Sleep 1000,
         Console (FetchingPage 2 40), Fetch (url_at 40),
         Console (ErrorFetching (GoogleApiError 500 ''Backend Error'')), Console NoMoreBooks,
         Console (FetchedValid 1), Insert [dune_book] ''isbn'',
         Console (Processed 1), Console CheckTable],
        None, [dune_book])"
  by code_simp

text \<open>
  C1, as amended: when the fetch of page \<open>n\<close> fails (a response without \<open>ok\<close> or a
  rejected call), after \<open>n\<close> pages that were not empty, \<open>fetchGoogleBooks\<close> prints the
  error and returns the empty page; \<open>main\<close> does not fail, it issues no further fetch
  and hands the rows of the earlier pages to the store in one write (no write when
  there are none).
\<close>

theorem fetch_failure_ends_fetching:
  assumes "\<forall>j<n. page k api s j \<noteq> [] \<and> transformBookData (page k api s j) = Inr (bs j)"
    and "n < ceil_div target booksPerPage"
    and "fetch_try api \<lparr>q = s, startIndex = n * booksPerPage, maxResults = 40, key = k\<rparr> = Inl e"
  shows "fetchGoogleBooks k api s (n * booksPerPage) =
           ([Fetch \<lparr>q = s, startIndex = n * booksPerPage, maxResults = 40, key = k\<rparr>,
             Console (ErrorFetching e)], [])
       \<and> fetches (fst (main k api ins s target st)) = map (\<lambda>j. j * booksPerPage) [0..<Suc n]
       \<and> fst (snd (main k api ins s target st)) = None
       \<and> inserts (fst (main k api ins s target st)) =
           (if concat (map bs [0..<n]) = [] then [] else [(concat (map bs [0..<n]), ''isbn'')])
       \<and> snd (snd (main k api ins s target st)) =
           (if concat (map bs [0..<n]) = [] then st
            else snd (ins st (concat (map bs [0..<n])) ''isbn''))"
proof -
  note f = fetch_failure_empty_page [OF assms(3)]
  then have p: "page k api s n = []" by (simp add: page_def)
  note l = loop_stops_at_empty_page [OF assms(1,2) p]
  from f l main_after_loop [of k api s target "concat (map bs [0..<n])" ins st]
  show ?thesis by (simp add: main_fetches)
qed

text \<open>C1 as amended, at the run against \<open>api_second_page_fails\<close>.\<close>

theorem fetch_failure_ends_fetching_witness:
  "fetches (fst (main ''k'' api_second_page_fails conflict_ignore_store ''best seller'' 200 [])) = [0, 40]
   \<and> fst (snd (main ''k'' api_second_page_fails conflict_ignore_store ''best seller'' 200 [])) = None
   \<and> inserts (fst (main ''k'' api_second_page_fails conflict_ignore_store ''best seller'' 200 []))
       = [([dune_book], ''isbn'')]
   \<and> snd (snd (main ''k'' api_second_page_fails conflict_ignore_store ''best seller'' 200 [])) = [dune_book]"
proof -
  have g: "\<forall>j<1. page ''k'' api_second_page_fails ''best seller'' j \<noteq> []
       \<and> transformBookData (page ''k'' api_second_page_fails ''best seller'' j) = Inr ((\<lambda>_. [dune_book]) j)"
    by (simp add: page_fails_0 transformBookData_dune)
  have n: "1 < ceil_div 200 booksPerPage" by (simp add: ceil_div_def booksPerPage_def)
  have f: "fetch_try api_second_page_fails
             \<lparr>q = ''best seller'', startIndex = 1 * booksPerPage, maxResults = 40, key = ''k''\<rparr>
           = Inl (GoogleApiError 500 ''Backend Error'')"
    by (simp add: fetch_try_def api_second_page_fails_def booksPerPage_def)
  show ?thesis
    using fetch_failure_ends_fetching [OF g n f, of conflict_ignore_store "[]"]
    by (simp add: booksPerPage_def conflict_ignore_store_def)
qed




text \<open>
  C7. When the first \<open>n\<close> pages are not empty and page \<open>n\<close> comes back empty (with
  \<open>n\<close> below the number of pages of the loop), the fetch of page \<open>n\<close> is the last
  fetch of the run, whatever the number of rows so far, and the rows of the earlier
  pages are handed to the store in one write (no write when there are none).
\<close>

theorem stops_at_empty_page:
  assumes "\<forall>j<n. page k api s j \<noteq> [] \<and> transformBookData (page k api s j) = Inr (bs j)"
    and "n < ceil_div target booksPerPage"
    and "page k api s n = []"
  shows "fetches (fst (main k api ins s target st)) = map (\<lambda>j. j * booksPerPage) [0..<Suc n]
       \<and> inserts (fst (main k api ins s target st)) =
           (if concat (map bs [0..<n]) = [] then [] else [(concat (map bs [0..<n]), ''isbn'')])
       \<and> snd (snd (main k api ins s target st)) =
           (if concat (map bs [0..<n]) = [] then st
            else snd (ins st (concat (map bs [0..<n])) ''isbn''))"
proof -
  note l = loop_stops_at_empty_page [OF assms]
  from l main_after_loop [of k api s target "concat (map bs [0..<n])" ins st]
  show ?thesis by (simp add: main_fetches)
qed

text \<open>C7, at the run against \<open>api_single_page\<close>: two fetches, one row written.\<close>

theorem stops_at_empty_page_witness:
  "fetches (fst (main ''k'' api_single_page conflict_ignore_store ''best seller'' 200 [])) = [0, 40]
   \<and> inserts (fst (main ''k'' api_single_page conflict_ignore_store ''best seller'' 200 []))
       = [([dune_book], ''isbn'')]
   \<and> snd (snd (main ''k'' api_single_page conflict_ignore_store ''best seller'' 200 [])) = [dune_book]"
proof -
  have g: "\<forall>j<1. page ''k'' api_single_page ''best seller'' j \<noteq> []
       \<and> transformBookData (page ''k'' api_single_page ''best seller'' j) = Inr ((\<lambda>_. [dune_book]) j)"
    by (simp add: page_single_0 transformBookData_dune)
  have n: "1 < ceil_div 200 booksPerPage" by (simp add: ceil_div_def booksPerPage_def)
  show ?thesis
    using stops_at_empty_page [OF g n page_single_1, of conflict_ignore_store "[]"]
    by (simp add: booksPerPage_def conflict_ignore_store_def)
qed



text \<open>
  C8, the claim as stated: after a page that is not empty, another fetch is issued as
  long as the number of rows is below the target. It fails on the run against
  \<open>api_one_book_per_page\<close> with the target 200 of the script: page 4 (offset 160) is
  not empty and only 5 rows are there, yet no fetch at offset 200 follows; the 5 rows
  are written.
\<close>

theorem stops_below_target:
  "fetches (fst (main ''k'' api_one_book_per_page conflict_ignore_store ''best seller'' 200 []))
     = [0, 40, 80, 120, 160]
   \<and> page ''k'' api_one_book_per_page ''best seller'' 4 = [dune]
   \<and> inserts (fst (main ''k'' api_one_book_per_page conflict_ignore_store ''best seller'' 200 []))
     = [([dune_book, dune_book, dune_book, dune_book, dune_book], ''isbn'')]
   \<and> length [dune_book, dune_book, dune_book, dune_book, dune_book] < (200 :: nat)"
  by code_simp

text \<open>
  C8, as amended: the loop is bounded by the number of pages
  \<open>ceil_div target booksPerPage\<close>, not by the number of rows. A run never issues more
  fetches than that; after \<open>n\<close> pages that are not empty, with \<open>n\<close> below that number,
  the next fetch is issued, the offsets being \<open>0\<close>, \<open>40\<close>, ..., \<open>n * 40\<close>; and when
  all pages are not empty the fetches are exactly those of that number of pages.
\<close>

theorem fetching_is_bounded_by_page_count:
  assumes "\<forall>j<n. page k api s j \<noteq> [] \<and> transformBookData (page k api s j) = Inr (bs j)"
  shows "length (fetches (fst (main k api ins s target st))) \<le> ceil_div target booksPerPage
       \<and> (n < ceil_div target booksPerPage \<longrightarrow>
            take (Suc n) (fetches (fst (main k api ins s target st))) =
              map (\<lambda>j. j * booksPerPage) [0..<Suc n])
       \<and> (ceil_div target booksPerPage \<le> n \<longrightarrow>
            fetches (fst (main k api ins s target st)) =
              map (\<lambda>j. j * booksPerPage) [0..<ceil_div target booksPerPage])"
proof (intro conjI impI)
  show "length (fetches (fst (main k api ins s target st))) \<le> ceil_div target booksPerPage"
    using fetchLoop_length_fetches [of k api s "ceil_div target booksPerPage" 0 "[]"]
    by (simp add: main_fetches)
next
  assume lt: "n < ceil_div target booksPerPage"
  have g: "\<forall>j. 0 \<le> j \<and> j < 0 + n \<longrightarrow>
             page k api s j \<noteq> [] \<and> transformBookData (page k api s j) = Inr (bs j)"
    using assms by simp
  have le: "0 + n \<le> ceil_div target booksPerPage" using lt by simp
  have "\<exists>rest. fetches (fst (fetchLoop k api s (ceil_div target booksPerPage) n
      (concat (map bs [0..<n])))) = (n * booksPerPage) # rest"
    by (rule fetchLoop_first_fetch [OF lt])
  then obtain rest where r: "fetches (fst (fetchLoop k api s (ceil_div target booksPerPage) n
      (concat (map bs [0..<n])))) = (n * booksPerPage) # rest" by blast
  show "take (Suc n) (fetches (fst (main k api ins s target st))) =
              map (\<lambda>j. j * booksPerPage) [0..<Suc n]"
    using fetchLoop_good_pages [OF g le, of "[]"] r
    by (simp add: main_fetches)
next
  assume ge: "ceil_div target booksPerPage \<le> n"
  have g: "\<forall>j. 0 \<le> j \<and> j < 0 + ceil_div target booksPerPage \<longrightarrow>
             page k api s j \<noteq> [] \<and> transformBookData (page k api s j) = Inr (bs j)"
    using assms ge by simp
  have le: "0 + ceil_div target booksPerPage \<le> ceil_div target booksPerPage" by simp
  show "fetches (fst (main k api ins s target st)) =
              map (\<lambda>j. j * booksPerPage) [0..<ceil_div target booksPerPage]"
    using fetchLoop_good_pages [OF g le, of "[]"]
    by (simp add: main_fetches fetchLoop_done)
qed

text \<open>C8 as amended, at the run against \<open>api_one_book_per_page\<close>.\<close>

theorem fetching_is_bounded_by_page_count_witness:
  "fetches (fst (main ''k'' api_one_book_per_page conflict_ignore_store ''best seller'' 200 []))
     = [0, 40, 80, 120, 160]"
proof -
  have g: "\<forall>j<5. page ''k'' api_one_book_per_page ''best seller'' j \<noteq> []
       \<and> transformBookData (page ''k'' api_one_book_per_page ''best seller'' j) = Inr ((\<lambda>_. [dune_book]) j)"
    by (simp add: page_one_book transformBookData_dune)
  have c: "ceil_div 200 booksPerPage = 5" by (simp add: ceil_div_def booksPerPage_def)
  have u: "[0..<5] = [0, 1, 2, 3, 4]" by (simp add: upt_rec)
  show ?thesis
    using fetching_is_bounded_by_page_count [OF g, of conflict_ignore_store "200" "[]"]
    by (simp add: ceil_div_def u booksPerPage_def)
qed



text \<open>
  C9. When one of the three variables is not set (or set to the empty string), the
  script prints its two messages and exits with code 1, without a fetch and without
  a write. When the three are set to values that are not empty, the script is the run
  of \<open>main\<close> with the key of the source API.
\<close>

theorem startup_credentials_check:
  "((env ''SUPABASE_URL'' = None \<or> env ''SUPABASE_URL'' = Some [] \<or>
     env ''SUPABASE_SERVICE_KEY'' = None \<or> env ''SUPABASE_SERVICE_KEY'' = Some [] \<or>
     env ''GOOGLE_BOOKS_API_KEY'' = None \<or> env ''GOOGLE_BOOKS_API_KEY'' = Some [])
    \<longrightarrow> populate env api ins st = ([Console MissingKeys, Console CheckEnvFile, Exit 1], st)
        \<and> fetches (fst (populate env api ins st)) = []
        \<and> inserts (fst (populate env api ins st)) = [])
   \<and> (\<forall>u sk gk. env ''SUPABASE_URL'' = Some u \<and> u \<noteq> [] \<and>
         env ''SUPABASE_SERVICE_KEY'' = Some sk \<and> sk \<noteq> [] \<and>
         env ''GOOGLE_BOOKS_API_KEY'' = Some gk \<and> gk \<noteq> []
       \<longrightarrow> populate env api ins st =
             (case main gk api ins ''best seller'' 200 st of
                (tr, e, st') \<Rightarrow>
                  (tr @ (case e of None \<Rightarrow> [] | Some x \<Rightarrow> [Console (Uncaught x)]), st')))"
  by (auto simp: populate_def falsy_def Let_def split: prod.splits option.splits)

text \<open>C9, at an environment without the key of the source API and at a full one.\<close>

theorem startup_credentials_check_witness:
  "populate env_no_api_key api_single_page conflict_ignore_store [] =
     ([Console MissingKeys, Console CheckEnvFile, Exit 1], [])
   \<and> snd (populate env_full api_single_page conflict_ignore_store []) = [dune_book]"
proof -
  have a: "env_no_api_key ''GOOGLE_BOOKS_API_KEY'' = None" by (simp add: env_no_api_key_def)
  have b: "env_full ''SUPABASE_URL'' = Some ''https://db.example'' \<and> ''https://db.example'' \<noteq> [] \<and>
         env_full ''SUPABASE_SERVICE_KEY'' = Some ''s'' \<and> ''s'' \<noteq> [] \<and>
         env_full ''GOOGLE_BOOKS_API_KEY'' = Some ''k'' \<and> ''k'' \<noteq> []"
    by (simp add: env_full_def)
  have m: "main ''k'' api_single_page conflict_ignore_store ''best seller'' 200 [] =
       ([Console (Starting 200 ''best seller''),
         Console (FetchingPage 1 0), Fetch (url_at 0), Sleep 1000,
         Console (FetchingPage 2 40), Fetch (url_at 40), Console NoMoreBooks,
         Console (FetchedValid 1), Insert [dune_book] ''isbn'',
         Console (Processed 1), Console CheckTable],
        None, [dune_book])"
    by code_simp
  from startup_credentials_check [of env_no_api_key api_single_page conflict_ignore_store "[]"] a
  have 1: "populate env_no_api_key api_single_page conflict_ignore_store [] =
     ([Console MissingKeys, Console CheckEnvFile, Exit 1], [])" by simp
  from startup_credentials_check [of env_full api_single_page conflict_ignore_store "[]"] b
  have 2: "populate env_full api_single_page conflict_ignore_store [] =
             (case main ''k'' api_single_page conflict_ignore_store ''best seller'' 200 [] of
                (tr, e, st') \<Rightarrow>
                  (tr @ (case e of None \<Rightarrow> [] | Some x \<Rightarrow> [Console (Uncaught x)]), st'))"
    by blast
  show ?thesis using 1 2 by (simp add: m)
qed



end
